theory Spec2Isabelle
  imports Complex_Main
begin

section \<open>JavaScript values\<close>

text \<open>
  The values the two components handle come out of \<^verbatim>\<open>JSON.parse\<close> or are string
  constants of the source. A JSON number is a finite double, hence a rational; only its
  being zero and its equality are ever looked at. A string is a list of code units (the
  characters of \<^typ>\<open>string\<close>, code units 0 to 255). An object is the list of its own
  properties, each key once.
\<close>

datatype jsval =
    JUndefined
  | JNull
  | JBool bool
  | JNum rat
  | JStr string
  | JArr "jsval list"
  | JObj "(string \<times> jsval) list"

datatype js_error = TypeError | SyntaxError | FetchRejected | Error string

text \<open>ToBoolean, as used by \<^verbatim>\<open>if (v)\<close>, \<^verbatim>\<open>a && b\<close> and \<^verbatim>\<open>a || b\<close>.\<close>

fun js_truthy :: "jsval \<Rightarrow> bool" where
  "js_truthy JUndefined = False"
| "js_truthy JNull = False"
| "js_truthy (JBool b) = b"
| "js_truthy (JNum n) = (n \<noteq> 0)"
| "js_truthy (JStr s) = (s \<noteq> [])"
| "js_truthy (JArr xs) = True"
| "js_truthy (JObj kvs) = True"

text \<open>
  Strict equality \<^verbatim>\<open>===\<close>. Primitives compare by value. Arrays and objects compare by
  reference; every array or object these components compare was built by a different
  call of \<^verbatim>\<open>JSON.parse\<close>, so two of them are never the same reference.
\<close>

fun strict_eq :: "jsval \<Rightarrow> jsval \<Rightarrow> bool" where
  "strict_eq JUndefined JUndefined = True"
| "strict_eq JNull JNull = True"
| "strict_eq (JBool a) (JBool b) = (a = b)"
| "strict_eq (JNum a) (JNum b) = (a = b)"
| "strict_eq (JStr a) (JStr b) = (a = b)"
| "strict_eq a b = False"

text \<open>
  Reading a property \<^verbatim>\<open>v.k\<close>, for the names the source reads (\<^verbatim>\<open>statusCode\<close>,
  \<^verbatim>\<open>body\<close>, \<^verbatim>\<open>status\<close>, \<^verbatim>\<open>response\<close>, \<^verbatim>\<open>message\<close>, \<^verbatim>\<open>processing_time\<close>): none of
  them is inherited from a prototype, so the read gives the own property or
  \<^verbatim>\<open>undefined\<close>, and throws a TypeError on \<^verbatim>\<open>null\<close> and \<^verbatim>\<open>undefined\<close>.
\<close>

fun get_prop :: "jsval \<Rightarrow> string \<Rightarrow> js_error + jsval" where
  "get_prop JUndefined k = Inl TypeError"
| "get_prop JNull k = Inl TypeError"
| "get_prop (JObj kvs) k = Inr (case map_of kvs k of None \<Rightarrow> JUndefined | Some v \<Rightarrow> v)"
| "get_prop v k = Inr JUndefined"

text \<open>
  \<^verbatim>\<open>JSON.parse\<close> is a built-in of the language, taken as a parameter \<open>parse\<close>
  throughout: it maps its argument (coerced to a string by the built-in itself) to the
  parsed value, or to \<open>None\<close> where the built-in throws a SyntaxError.
\<close>

type_synonym json_parse = "jsval \<Rightarrow> jsval option"

definition JSON_parse :: "json_parse \<Rightarrow> jsval \<Rightarrow> js_error + jsval" where
  "JSON_parse parse v = (case parse v of None \<Rightarrow> Inl SyntaxError | Some x \<Rightarrow> Inr x)"

section \<open>StatusPanel: the Poller\<close>

text \<open>
  A history entry, as \<^verbatim>\<open>addToHistory\<close> builds it. \<^verbatim>\<open>Date.now()\<close> is an argument
  \<open>now\<close> of every operation that reads the clock.
\<close>

record entry =
  entry_id :: nat
  status :: jsval
  timestamp :: nat

text \<open>
  The function component runs once per render; \<^verbatim>\<open>statusMessage\<close>, \<^verbatim>\<open>apiEndpoint\<close> and
  \<^verbatim>\<open>isPolling\<close> are \<^verbatim>\<open>const\<close> bindings of that run, and \<^verbatim>\<open>pollLambda\<close>,
  \<^verbatim>\<open>startPolling\<close> and \<^verbatim>\<open>handleChatMessage\<close> are closures over them. A setter such
  as \<^verbatim>\<open>setStatusMessage\<close> changes the component's state for the next render and never
  the binding a closure already holds. The three \<^verbatim>\<open>useRef\<close> cells are shared by all
  renders and are read and written in place.
\<close>

record closure =
  c_statusMessage :: jsval
  c_apiEndpoint :: string
  c_isPolling :: bool

text \<open>
  The component's state (the five \<^verbatim>\<open>useState\<close> cells and the three refs), and the part
  of the browser it acts on: the table of repeating timers (handle, period in ms, the
  callback's closure), the last handle the browser gave out, and the GET requests that
  were issued and have not completed (URL, closure of the \<^verbatim>\<open>pollLambda\<close> awaiting it).
\<close>

record panel =
  statusMessage :: jsval
  statusHistory :: "entry list"
  isPolling :: bool
  apiEndpoint :: string
  connectionStatus :: string
  pollIntervalRef :: "nat option"
  historyIdCounter :: nat
  previousStatusRef :: jsval
  intervals :: "(nat \<times> nat \<times> closure) list"
  last_handle :: nat
  inflight :: "(string \<times> closure) list"

definition BASE_URL :: string where
  "BASE_URL = ''https://xba04ftzkk.execute-api.us-east-1.amazonaws.com/dev''"

definition STATUS :: string where
  "STATUS = ''/status''"

text \<open>The state at mount; \<open>h0\<close> is the last timer handle the page has used so far.\<close>

definition mount :: "nat \<Rightarrow> panel" where
  "mount h0 = \<lparr> statusMessage = JStr [], statusHistory = [], isPolling = False,
      apiEndpoint = BASE_URL, connectionStatus = ''Ready'', pollIntervalRef = None,
      historyIdCounter = 0, previousStatusRef = JStr [], intervals = [],
      last_handle = h0, inflight = [] \<rparr>"

text \<open>The bindings a render of the component in state \<open>s\<close> gives its closures.\<close>

definition render :: "panel \<Rightarrow> closure" where
  "render s = \<lparr> c_statusMessage = statusMessage s, c_apiEndpoint = apiEndpoint s,
      c_isPolling = isPolling s \<rparr>"

definition addToHistory :: "nat \<Rightarrow> jsval \<Rightarrow> panel \<Rightarrow> panel" where
  "addToHistory now st s =
     s\<lparr> statusHistory := statusHistory s @
            [\<lparr> entry_id = historyIdCounter s, status = st, timestamp = now \<rparr>],
        historyIdCounter := historyIdCounter s + 1 \<rparr>"

text \<open>
  The test \<^verbatim>\<open>v.statusCode && v.body\<close> of both components: \<^verbatim>\<open>v.body\<close> is read only
  when \<^verbatim>\<open>v.statusCode\<close> is truthy.
\<close>

definition is_envelope :: "jsval \<Rightarrow> js_error + bool" where
  "is_envelope v =
     (case get_prop v ''statusCode'' of
        Inl e \<Rightarrow> Inl e
      | Inr sc \<Rightarrow>
          if js_truthy sc then
            (case get_prop v ''body'' of Inl e \<Rightarrow> Inl e | Inr b \<Rightarrow> Inr (js_truthy b))
          else Inr False)"

text \<open>
  Line 64: \<^verbatim>\<open>(parsed.statusCode && parsed.body) ? JSON.parse(parsed.body) : parsed\<close>.
\<close>

definition unwrap :: "json_parse \<Rightarrow> jsval \<Rightarrow> js_error + jsval" where
  "unwrap parse parsed =
     (case is_envelope parsed of
        Inl e \<Rightarrow> Inl e
      | Inr env \<Rightarrow>
          if env then
            (case get_prop parsed ''body'' of Inl e \<Rightarrow> Inl e | Inr b \<Rightarrow> JSON_parse parse b)
          else Inr parsed)"

definition processingStatus :: jsval where
  "processingStatus = JStr ''processing...''"

text \<open>
  Lines 67 to 86, for a truthy \<^verbatim>\<open>data.status\<close>: \<open>c\<close> is the closure of the running
  \<^verbatim>\<open>pollLambda\<close>, whose \<^verbatim>\<open>statusMessage\<close> the two guards read; the tracker
  \<^verbatim>\<open>previousStatusRef.current\<close> is read from the state.
\<close>

definition decide :: "closure \<Rightarrow> jsval \<Rightarrow> nat \<Rightarrow> panel \<Rightarrow> panel" where
  "decide c currentStatus now s =
     (let previousStatus = previousStatusRef s in
      if strict_eq currentStatus previousStatus
         \<and> \<not> strict_eq currentStatus (JStr ''initial status'') then
        (if \<not> strict_eq (c_statusMessage c) processingStatus then
           (addToHistory now processingStatus (s\<lparr> statusMessage := processingStatus \<rparr>))
             \<lparr> connectionStatus := ''Polling - Processing'' \<rparr>
         else s)
      else if \<not> strict_eq currentStatus (c_statusMessage c) then
        (addToHistory now currentStatus (s\<lparr> statusMessage := currentStatus \<rparr>))
          \<lparr> previousStatusRef := currentStatus,
            connectionStatus := ''Polling - Status updated'' \<rparr>
      else s\<lparr> connectionStatus := ''Polling - No change'' \<rparr>)"

text \<open>
  What \<^verbatim>\<open>fetch\<close> settles with: \<open>None\<close> when the promise rejects (network error),
  otherwise a response with its \<^verbatim>\<open>ok\<close> flag and what \<^verbatim>\<open>response.text()\<close> gives
  (\<open>None\<close> when reading the body rejects).
\<close>

record response =
  ok :: bool
  body_text :: "string option"

text \<open>The \<^verbatim>\<open>try\<close> block of \<^verbatim>\<open>pollLambda\<close> from the point where \<^verbatim>\<open>fetch\<close> settles.\<close>

definition pollLambda_try ::
  "json_parse \<Rightarrow> closure \<Rightarrow> response option \<Rightarrow> nat \<Rightarrow> panel \<Rightarrow> js_error + panel" where
  "pollLambda_try parse c res now s =
     (case res of
        None \<Rightarrow> Inl FetchRejected
      | Some r \<Rightarrow>
          if \<not> ok r then Inr (s\<lparr> connectionStatus := ''Error'' \<rparr>)
          else
            (case body_text r of
               None \<Rightarrow> Inl FetchRejected
             | Some txt \<Rightarrow>
                 (case JSON_parse parse (JStr txt) of
                    Inl e \<Rightarrow> Inl e
                  | Inr parsed \<Rightarrow>
                      (case unwrap parse parsed of
                         Inl e \<Rightarrow> Inl e
                       | Inr data \<Rightarrow>
                           (case get_prop data ''status'' of
                              Inl e \<Rightarrow> Inl e
                            | Inr st \<Rightarrow>
                                if js_truthy st then Inr (decide c st now s)
                                else Inr s)))))"

text \<open>
  \<^verbatim>\<open>pollLambda\<close> from the point where \<^verbatim>\<open>fetch\<close> settles, with its \<^verbatim>\<open>catch\<close>: the
  result is how the promise of the \<^verbatim>\<open>async\<close> function settles, \<open>Inl\<close> a rejection.
\<close>

definition pollLambda ::
  "json_parse \<Rightarrow> closure \<Rightarrow> response option \<Rightarrow> nat \<Rightarrow> panel \<Rightarrow> js_error + panel" where
  "pollLambda parse c res now s =
     (case pollLambda_try parse c res now s of
        Inl e \<Rightarrow> Inr (s\<lparr> connectionStatus := ''Error'' \<rparr>)
      | Inr s' \<Rightarrow> Inr s')"

text \<open>
  Calling \<^verbatim>\<open>pollLambda()\<close> runs it up to its first \<^verbatim>\<open>await\<close>: the GET request to
  the closure's endpoint is issued.
\<close>

definition pollLambda_call :: "closure \<Rightarrow> panel \<Rightarrow> panel" where
  "pollLambda_call c s = s\<lparr> inflight := inflight s @ [(c_apiEndpoint c @ STATUS, c)] \<rparr>"

text \<open>
  \<^verbatim>\<open>setInterval\<close> gives a handle greater than zero that the page has not used, and
  \<^verbatim>\<open>clearInterval\<close> removes the timer with that handle.
\<close>

definition setInterval :: "closure \<Rightarrow> nat \<Rightarrow> panel \<Rightarrow> nat \<times> panel" where
  "setInterval c period s =
     (let h = Suc (last_handle s)
      in (h, s\<lparr> intervals := intervals s @ [(h, period, c)], last_handle := h \<rparr>))"

definition clearInterval :: "nat \<Rightarrow> panel \<Rightarrow> panel" where
  "clearInterval h s = s\<lparr> intervals := filter (\<lambda>t. fst t \<noteq> h) (intervals s) \<rparr>"

text \<open>Truthiness of \<^verbatim>\<open>pollIntervalRef.current\<close>: \<^verbatim>\<open>null\<close> or a number.\<close>

definition handle_truthy :: "nat option \<Rightarrow> bool" where
  "handle_truthy r = (case r of None \<Rightarrow> False | Some h \<Rightarrow> h \<noteq> 0)"

definition startPolling :: "closure \<Rightarrow> panel \<Rightarrow> panel" where
  "startPolling c s =
     (if handle_truthy (pollIntervalRef s) then s
      else
        (let s1 = s\<lparr> isPolling := True, connectionStatus := ''Polling started'',
                     previousStatusRef := JStr [] \<rparr>;
             s2 = pollLambda_call c s1;
             (h, s3) = setInterval c 2000 s2
         in s3\<lparr> pollIntervalRef := Some h \<rparr>))"

definition stopPolling :: "panel \<Rightarrow> panel" where
  "stopPolling s =
     (let s1 = (case pollIntervalRef s of
                  None \<Rightarrow> s
                | Some h \<Rightarrow>
                    if h \<noteq> 0 then (clearInterval h s)\<lparr> pollIntervalRef := None \<rparr>
                    else s)
      in s1\<lparr> isPolling := False, connectionStatus := ''Stopped'' \<rparr>)"

definition clearHistory :: "panel \<Rightarrow> panel" where
  "clearHistory s =
     s\<lparr> statusHistory := [], statusMessage := JStr [], historyIdCounter := 0,
        previousStatusRef := JStr [] \<rparr>"

definition handleChatMessage :: "closure \<Rightarrow> panel \<Rightarrow> panel" where
  "handleChatMessage c s = (if \<not> c_isPolling c then startPolling c s else s)"

subsection \<open>The panel as a transition system\<close>

text \<open>
  What can happen to a mounted panel: \<^verbatim>\<open>startPolling\<close> of some render is called (by
  the button, whose closure is that of the latest render), the window event
  \<^verbatim>\<open>chatMessageSent\<close> reaches the listener of some render, \<^verbatim>\<open>stopPolling\<close> or
  \<^verbatim>\<open>clearHistory\<close> is called, the endpoint field is edited, the timer with a given
  handle fires, or the request at a given position of the pending list settles.
\<close>

datatype event =
    Start closure
  | ChatMessageSent closure
  | Stop
  | Clear
  | EditEndpoint string
  | Tick nat
  | Settle nat "response option" nat

definition tick :: "nat \<Rightarrow> panel \<Rightarrow> panel" where
  "tick h s =
     (case filter (\<lambda>t. fst t = h) (intervals s) of
        [] \<Rightarrow> s
      | t # _ \<Rightarrow> pollLambda_call (snd (snd t)) s)"

definition settle :: "json_parse \<Rightarrow> nat \<Rightarrow> response option \<Rightarrow> nat \<Rightarrow> panel \<Rightarrow> panel" where
  "settle parse i res now s =
     (if i < length (inflight s) then
        (let c = snd (inflight s ! i);
             s1 = s\<lparr> inflight := take i (inflight s) @ drop (Suc i) (inflight s) \<rparr>
         in case pollLambda parse c res now s1 of Inl e \<Rightarrow> s1 | Inr s' \<Rightarrow> s')
      else s)"

fun step :: "json_parse \<Rightarrow> event \<Rightarrow> panel \<Rightarrow> panel" where
  "step parse (Start c) s = startPolling c s"
| "step parse (ChatMessageSent c) s = handleChatMessage c s"
| "step parse Stop s = stopPolling s"
| "step parse Clear s = clearHistory s"
| "step parse (EditEndpoint u) s = s\<lparr> apiEndpoint := u \<rparr>"
| "step parse (Tick h) s = tick h s"
| "step parse (Settle i res now) s = settle parse i res now s"

definition run :: "json_parse \<Rightarrow> event list \<Rightarrow> panel \<Rightarrow> panel" where
  "run parse evs s = fold (step parse) evs s"

text \<open>
  The status texts of the history, and the number of its entries that are the processing
  indicator.
\<close>

definition shown :: "panel \<Rightarrow> jsval list" where
  "shown s = map status (statusHistory s)"

definition processing_entries :: "panel \<Rightarrow> nat" where
  "processing_entries s = length (filter (\<lambda>e. status e = processingStatus) (statusHistory s))"

section \<open>ChatPanel: the messaging collaborator\<close>

text \<open>
  A chat message as \<^verbatim>\<open>addMessage\<close> builds it; \<open>metadata\<close> holds the properties spread
  in from the third argument. \<open>time\<close> is the text \<^verbatim>\<open>toLocaleTimeString\<close> gives and
  \<open>msg_timestamp\<close> the reading of \<^verbatim>\<open>Date.now()\<close>, both arguments of the operations.
\<close>

record message =
  msg_id :: nat
  msg_text :: jsval
  sender :: string
  time :: string
  msg_timestamp :: nat
  metadata :: "(string \<times> jsval) list"

text \<open>
  The component's state, the names of the events it has dispatched on \<^verbatim>\<open>window\<close>, and
  the POST requests it has issued (URL, and the \<^verbatim>\<open>message\<close> and \<^verbatim>\<open>timestamp\<close> of the
  request body). The form's \<^verbatim>\<open>onSubmit\<close> is bound again at every render, so
  \<^verbatim>\<open>handleSubmit\<close> reads the state of the latest render.
\<close>

record chat =
  messages :: "message list"
  inputValue :: string
  isProcessing :: bool
  chat_connectionStatus :: string
  messageIdCounter :: nat
  dispatched :: "string list"
  posted :: "(string \<times> string \<times> nat) list"

definition CHAT_BASE_URL :: string where
  "CHAT_BASE_URL = ''https://svv182tlpk.execute-api.us-east-1.amazonaws.com/dev''"

definition CHAT :: string where
  "CHAT = ''/chat''"

text \<open>
  \<^verbatim>\<open>String.prototype.trim\<close> removes white space and line terminators from both ends;
  among the code units 0 to 255 these are TAB, LF, VT, FF, CR, SP and NBSP.
\<close>

definition js_whitespace :: "char \<Rightarrow> bool" where
  "js_whitespace ch = (of_char ch \<in> {9, 10, 11, 12, 13, 32, 160 :: nat})"

definition js_trim :: "string \<Rightarrow> string" where
  "js_trim s = rev (dropWhile js_whitespace (rev (dropWhile js_whitespace s)))"

definition addMessage ::
  "string \<Rightarrow> nat \<Rightarrow> jsval \<Rightarrow> string \<Rightarrow> (string \<times> jsval) list \<Rightarrow> chat \<Rightarrow> message \<times> chat" where
  "addMessage tm now txt who meta s =
     (let newMessage = \<lparr> msg_id = messageIdCounter s, msg_text = txt, sender = who,
            time = tm, msg_timestamp = now, metadata = meta \<rparr>
      in (newMessage,
          s\<lparr> messages := messages s @ [newMessage],
             messageIdCounter := messageIdCounter s + 1 \<rparr>))"

definition notifyStatusPanel :: "chat \<Rightarrow> chat" where
  "notifyStatusPanel s = s\<lparr> dispatched := dispatched s @ [''chatMessageSent''] \<rparr>"

text \<open>\<^verbatim>\<open>sendToLambda\<close> up to its first \<^verbatim>\<open>await\<close>: the POST request is issued.\<close>

definition sendToLambda_call :: "string \<Rightarrow> nat \<Rightarrow> chat \<Rightarrow> chat" where
  "sendToLambda_call userMessage now s =
     s\<lparr> isProcessing := True, chat_connectionStatus := ''Processing...'',
        posted := posted s @ [(CHAT_BASE_URL @ CHAT, userMessage, now)] \<rparr>"

text \<open>
  \<^verbatim>\<open>handleSubmit\<close> up to its \<^verbatim>\<open>await\<close>. The first component is the event's
  \<^verbatim>\<open>defaultPrevented\<close> flag after \<^verbatim>\<open>e.preventDefault()\<close>.
\<close>

definition handleSubmit :: "string \<Rightarrow> nat \<Rightarrow> chat \<Rightarrow> bool \<times> chat" where
  "handleSubmit tm now s =
     (True,
      if js_trim (inputValue s) = [] \<or> isProcessing s then s
      else
        (let userMessage = js_trim (inputValue s);
             s1 = s\<lparr> inputValue := [] \<rparr>;
             s2 = snd (addMessage tm now (JStr userMessage) ''user'' [] s1);
             s3 = notifyStatusPanel s2
         in sendToLambda_call userMessage now s3))"

text \<open>
  \<^verbatim>\<open>o.response || o.message || o.body || fallback\<close>, evaluated from the left; a read
  throws where \<open>o\<close> is \<^verbatim>\<open>null\<close> or \<^verbatim>\<open>undefined\<close>.
\<close>

definition pick :: "jsval \<Rightarrow> jsval \<Rightarrow> js_error + jsval" where
  "pick obj fallback =
     (case get_prop obj ''response'' of
        Inl e \<Rightarrow> Inl e
      | Inr r \<Rightarrow>
          if js_truthy r then Inr r
          else
            (case get_prop obj ''message'' of
               Inl e \<Rightarrow> Inl e
             | Inr m \<Rightarrow>
                 if js_truthy m then Inr m
                 else
                   (case get_prop obj ''body'' of
                      Inl e \<Rightarrow> Inl e
                    | Inr b \<Rightarrow> if js_truthy b then Inr b else Inr fallback)))"

text \<open>
  Lines 370 to 389 of \<^verbatim>\<open>sendToLambda\<close>: the pair \<^verbatim>\<open>(botMessage, processingTime)\<close> for
  the parsed response \<open>data\<close>. \<^verbatim>\<open>JSON.stringify\<close> is the parameter \<open>stringify\<close>. The
  inner \<^verbatim>\<open>try\<close> falls back to \<^verbatim>\<open>data.body\<close> and leaves \<^verbatim>\<open>processingTime\<close> at
  \<^verbatim>\<open>null\<close>.
\<close>

definition extract_message ::
  "json_parse \<Rightarrow> (jsval \<Rightarrow> jsval) \<Rightarrow> jsval \<Rightarrow> js_error + jsval \<times> jsval" where
  "extract_message parse stringify data =
     (case is_envelope data of
        Inl e \<Rightarrow> Inl e
      | Inr env \<Rightarrow>
          if env then
            (case get_prop data ''body'' of
               Inl e \<Rightarrow> Inl e
             | Inr body \<Rightarrow>
                 (case body of
                    JStr b \<Rightarrow>
                      (case JSON_parse parse body of
                         Inl e \<Rightarrow> Inr (body, JNull)
                       | Inr parsedBody \<Rightarrow>
                           (case pick parsedBody body of
                              Inl e \<Rightarrow> Inr (body, JNull)
                            | Inr m \<Rightarrow>
                                (case get_prop parsedBody ''processing_time'' of
                                   Inl e \<Rightarrow> Inr (body, JNull)
                                 | Inr t \<Rightarrow> Inr (m, t))))
                  | _ \<Rightarrow>
                      (case pick body (stringify body) of
                         Inl e \<Rightarrow> Inl e
                       | Inr m \<Rightarrow>
                           (case get_prop body ''processing_time'' of
                              Inl e \<Rightarrow> Inl e
                            | Inr t \<Rightarrow> Inr (m, t)))))
          else
            (case pick data (stringify data) of
               Inl e \<Rightarrow> Inl e
             | Inr m \<Rightarrow>
                 (case get_prop data ''processing_time'' of
                    Inl e \<Rightarrow> Inl e
                  | Inr t \<Rightarrow> Inr (m, t))))"

section \<open>Notions used to state the properties\<close>

text \<open>
  The own property \<open>k\<close> of a value, \<^verbatim>\<open>undefined\<close> where there is none; whether the
  property is there; and the two values a property read throws on.
\<close>

definition field :: "jsval \<Rightarrow> string \<Rightarrow> jsval" where
  "field v k =
     (case v of
        JObj kvs \<Rightarrow> (case map_of kvs k of None \<Rightarrow> JUndefined | Some x \<Rightarrow> x)
      | _ \<Rightarrow> JUndefined)"

definition has_field :: "jsval \<Rightarrow> string \<Rightarrow> bool" where
  "has_field v k = (case v of JObj kvs \<Rightarrow> map_of kvs k \<noteq> None | _ \<Rightarrow> False)"

definition nullish :: "jsval \<Rightarrow> bool" where
  "nullish v = (v = JNull \<or> v = JUndefined)"

text \<open>
  Response texts and values of the examples below, and the values \<^verbatim>\<open>JSON.parse\<close> and
  \<^verbatim>\<open>JSON.stringify\<close> give on them. \<^verbatim>\<open>JSON.parse\<close> throws on the empty text and on
  \<^verbatim>\<open><html>\<close>, as on every text that is not JSON; the examples apply the two tables to
  their listed arguments and to these two texts only.
\<close>

definition running_text :: string where
  \<open>running_text = ''{"status":"running"}''\<close>

definition initial_text :: string where
  \<open>initial_text = ''{"status":"initial status"}''\<close>

definition done_text :: string where
  \<open>done_text = ''{"status":"done"}''\<close>

definition wrapped_text :: string where
  \<open>wrapped_text = ''{"statusCode":200,"body":"{}"}''\<close>

definition hello_text :: string where
  \<open>hello_text = ''{"response":"hello"}''\<close>

definition hello_envelope :: jsval where
  "hello_envelope = JObj [(''statusCode'', JNum 200), (''body'', JStr hello_text)]"

definition no_content :: jsval where
  "no_content = JObj [(''statusCode'', JNum 204), (''body'', JStr [])]"

definition blank_response :: jsval where
  "blank_response = JObj [(''response'', JStr []), (''message'', JStr ''hi'')]"

definition sample_parse :: json_parse where
  "sample_parse v =
     (if v = JStr ''{}'' then Some (JObj [])
      else if v = JStr running_text then Some (JObj [(''status'', JStr ''running'')])
      else if v = JStr initial_text then Some (JObj [(''status'', JStr ''initial status'')])
      else if v = JStr done_text then Some (JObj [(''status'', JStr ''done'')])
      else if v = JStr wrapped_text
        then Some (JObj [(''statusCode'', JNum 200), (''body'', JStr ''{}'')])
      else if v = JStr hello_text then Some (JObj [(''response'', JStr ''hello'')])
      else None)"

definition sample_stringify :: "jsval \<Rightarrow> jsval" where
  \<open>sample_stringify v =
     (if v = blank_response then JStr ''{"response":"","message":"hi"}''
      else JUndefined)\<close>

text \<open>A response with status 200 and the given body text.\<close>

definition ok_text :: "string \<Rightarrow> response option" where
  "ok_text txt = Some \<lparr> ok = True, body_text = Some txt \<rparr>"

subsection \<open>Failed cycles\<close>

text \<open>
  A transport failure: \<^verbatim>\<open>fetch\<close> rejects, the response is not 2xx, or reading its body
  rejects. A parse failure: the body text is not JSON, or it is an envelope (truthy
  \<^verbatim>\<open>statusCode\<close> and \<^verbatim>\<open>body\<close>) whose body is not JSON.
\<close>

definition transport_failure :: "response option \<Rightarrow> bool" where
  "transport_failure res =
     (case res of None \<Rightarrow> True | Some r \<Rightarrow> \<not> ok r \<or> body_text r = None)"

definition envelope_unparsable :: "json_parse \<Rightarrow> jsval \<Rightarrow> bool" where
  "envelope_unparsable parse parsed =
     (js_truthy (field parsed ''statusCode'') \<and> js_truthy (field parsed ''body'')
      \<and> parse (field parsed ''body'') = None)"

definition parse_failure :: "json_parse \<Rightarrow> response option \<Rightarrow> bool" where
  "parse_failure parse res =
     (case res of
        None \<Rightarrow> False
      | Some r \<Rightarrow>
          ok r \<and>
          (case body_text r of
             None \<Rightarrow> False
           | Some txt \<Rightarrow>
               (case parse (JStr txt) of
                  None \<Rightarrow> True
                | Some parsed \<Rightarrow> envelope_unparsable parse parsed)))"

subsection \<open>Invariants of the panel\<close>

text \<open>The ids of the history are \<open>0, 1, \<dots>\<close> up to the counter.\<close>

definition ids_ok :: "panel \<Rightarrow> bool" where
  "ids_ok s = (map entry_id (statusHistory s) = [0..<historyIdCounter s])"

text \<open>
  The ref holds \<^verbatim>\<open>null\<close> and the panel has no timer, or it holds the non-zero handle
  of the panel's only timer, whose period is 2000 ms.
\<close>

definition timer_ok :: "panel \<Rightarrow> bool" where
  "timer_ok s =
     (case pollIntervalRef s of
        None \<Rightarrow> intervals s = []
      | Some h \<Rightarrow> h \<noteq> 0 \<and> map (\<lambda>t. (fst t, fst (snd t))) (intervals s) = [(h, 2000)])"

text \<open>What the user sees and what the decision of a cycle reads and writes.\<close>

definition tracked :: "panel \<Rightarrow> jsval \<times> entry list \<times> nat \<times> jsval \<times> string \<times> bool" where
  "tracked s = (statusMessage s, statusHistory s, historyIdCounter s, previousStatusRef s,
      connectionStatus s, isPolling s)"

subsection \<open>The specification's wording of the two decodings\<close>

text \<open>
  The unwrapping as the specification words it: one level is unwrapped when the parsed
  value has both a \<^verbatim>\<open>statusCode\<close> field and a \<^verbatim>\<open>body\<close> field.
\<close>

definition unwrap_spec :: "json_parse \<Rightarrow> jsval \<Rightarrow> js_error + jsval" where
  "unwrap_spec parse parsed =
     (if has_field parsed ''statusCode'' \<and> has_field parsed ''body''
      then JSON_parse parse (field parsed ''body'')
      else Inr parsed)"

text \<open>
  The bot message as the specification words it: of \<^verbatim>\<open>response\<close>, \<^verbatim>\<open>message\<close> and
  \<^verbatim>\<open>body\<close>, in that order, the first field that is present.
\<close>

definition first_present :: "jsval \<Rightarrow> jsval option" where
  "first_present p =
     map_option (field p) (find (has_field p) [''response'', ''message'', ''body''])"

text \<open>Of the same three fields, in the same order, the first whose value is truthy.\<close>

definition first_truthy :: "jsval \<Rightarrow> jsval option" where
  "first_truthy p = find js_truthy (map (field p) [''response'', ''message'', ''body''])"

text \<open>
  The payload of a chat response: the parsed body of an envelope whose body is a string,
  the body itself of an envelope whose body is not a string, the response itself
  otherwise.
\<close>

definition chat_payload :: "json_parse \<Rightarrow> jsval \<Rightarrow> jsval option" where
  "chat_payload parse data =
     (if js_truthy (field data ''statusCode'') \<and> js_truthy (field data ''body'') then
        (case field data ''body'' of JStr b \<Rightarrow> parse (JStr b) | body \<Rightarrow> Some body)
      else Some data)"

section \<open>The Poller: lemmas\<close>

subsection \<open>A cycle always settles, and appends at most one entry\<close>

lemma pollLambda_total: "\<exists>s'. pollLambda parse c res now s = Inr s'"
  by (simp add: pollLambda_def split: sum.splits)

lemma decide_history:
  "\<exists>es. statusHistory (decide c st now s) = statusHistory s @ es \<and> length es \<le> 1"
  by (simp add: decide_def addToHistory_def Let_def)

lemma pollLambda_try_history:
  "pollLambda_try parse c res now s = Inr s' \<Longrightarrow>
     \<exists>es. statusHistory s' = statusHistory s @ es \<and> length es \<le> 1"
  using decide_history [of c _ now s]
  by (auto simp: pollLambda_try_def split: option.splits if_splits sum.splits)

lemma pollLambda_history:
  "pollLambda parse c res now s = Inr s' \<Longrightarrow>
     \<exists>es. statusHistory s' = statusHistory s @ es \<and> length es \<le> 1"
  using pollLambda_try_history [of parse c res now s]
  by (auto simp: pollLambda_def split: sum.splits)

lemma settle_history:
  "\<exists>es. statusHistory (settle parse i res now s) = statusHistory s @ es \<and> length es \<le> 1"
proof (cases "i < length (inflight s)")
  case False
  then show ?thesis by (simp add: settle_def)
next
  case True
  define s1 where "s1 = s\<lparr> inflight := take i (inflight s) @ drop (Suc i) (inflight s) \<rparr>"
  obtain s' where s': "pollLambda parse (snd (inflight s ! i)) res now s1 = Inr s'"
    using pollLambda_total by blast
  from pollLambda_history [OF s'] have
    "\<exists>es. statusHistory s' = statusHistory s @ es \<and> length es \<le> 1"
    by (simp add: s1_def)
  moreover have "settle parse i res now s = s'"
    using True s' by (simp add: settle_def Let_def s1_def)
  ultimately show ?thesis by simp
qed

lemma startPolling_history: "statusHistory (startPolling c s) = statusHistory s"
  by (simp add: startPolling_def pollLambda_call_def setInterval_def Let_def)

lemma stopPolling_history: "statusHistory (stopPolling s) = statusHistory s"
  by (simp add: stopPolling_def clearInterval_def Let_def split: option.splits)

lemma tick_history: "statusHistory (tick h s) = statusHistory s"
  by (simp add: tick_def pollLambda_call_def split: list.splits)

lemma step_history:
  "ev \<noteq> Clear \<Longrightarrow> \<exists>es. statusHistory (step parse ev s) = statusHistory s @ es"
proof (cases ev)
  case (Settle i res now)
  then show ?thesis using settle_history [of parse i res now s] by auto
qed (simp_all add: startPolling_history stopPolling_history tick_history handleChatMessage_def)

lemma run_history:
  "Clear \<notin> set evs \<Longrightarrow> \<exists>es. statusHistory (run parse evs s) = statusHistory s @ es"
proof (induction evs arbitrary: s)
  case Nil
  then show ?case by (simp add: run_def)
next
  case (Cons ev evs)
  from Cons.prems have "ev \<noteq> Clear" and rest: "Clear \<notin> set evs" by auto
  from step_history [OF \<open>ev \<noteq> Clear\<close>] obtain es1
    where e1: "statusHistory (step parse ev s) = statusHistory s @ es1" by blast
  from Cons.IH [OF rest, of "step parse ev s"] obtain es2
    where e2: "statusHistory (run parse evs (step parse ev s)) = statusHistory (step parse ev s) @ es2"
    by blast
  have "run parse (ev # evs) s = run parse evs (step parse ev s)" by (simp add: run_def)
  with e1 e2 show ?case by simp
qed

subsection \<open>The ids of the history\<close>

lemma ids_ok_mount: "ids_ok (mount h0)"
  by (simp add: ids_ok_def mount_def)

lemma ids_ok_addToHistory: "ids_ok s \<Longrightarrow> ids_ok (addToHistory now st s)"
  by (simp add: ids_ok_def addToHistory_def)

lemma ids_ok_decide: "ids_ok s \<Longrightarrow> ids_ok (decide c st now s)"
  by (simp add: ids_ok_def decide_def addToHistory_def Let_def)

lemma ids_ok_pollLambda:
  "ids_ok s \<Longrightarrow> pollLambda parse c res now s = Inr s' \<Longrightarrow> ids_ok s'"
  using ids_ok_decide [of s c _ now]
  by (auto simp: pollLambda_def pollLambda_try_def ids_ok_def
      split: option.splits if_splits sum.splits)

lemma ids_ok_settle: "ids_ok s \<Longrightarrow> ids_ok (settle parse i res now s)"
proof (cases "i < length (inflight s)")
  case False
  assume "ids_ok s"
  with False show ?thesis by (simp add: settle_def)
next
  case True
  assume ok: "ids_ok s"
  define s1 where "s1 = s\<lparr> inflight := take i (inflight s) @ drop (Suc i) (inflight s) \<rparr>"
  have ok1: "ids_ok s1" using ok by (simp add: ids_ok_def s1_def)
  obtain s' where s': "pollLambda parse (snd (inflight s ! i)) res now s1 = Inr s'"
    using pollLambda_total by blast
  have "settle parse i res now s = s'"
    using True s' by (simp add: settle_def Let_def s1_def)
  with ids_ok_pollLambda [OF ok1 s'] show ?thesis by simp
qed

lemma ids_ok_step: "ids_ok s \<Longrightarrow> ids_ok (step parse ev s)"
proof (cases ev)
  case (Settle i res now)
  assume "ids_ok s"
  with Settle show ?thesis by (simp add: ids_ok_settle)
qed (simp_all add: ids_ok_def startPolling_def pollLambda_call_def setInterval_def Let_def
      handleChatMessage_def stopPolling_def clearInterval_def clearHistory_def tick_def
      split: option.splits list.splits)

lemma ids_ok_run: "ids_ok s \<Longrightarrow> ids_ok (run parse evs s)"
  by (induction evs arbitrary: s) (simp_all add: run_def ids_ok_step)

lemma ids_sorted: "ids_ok s \<Longrightarrow> sorted_wrt (<) (map entry_id (statusHistory s))"
  by (simp add: ids_ok_def)

lemma ids_nth:
  "ids_ok s \<Longrightarrow> k < length (statusHistory s) \<Longrightarrow> entry_id (statusHistory s ! k) = k"
proof -
  assume ok: "ids_ok s" and k: "k < length (statusHistory s)"
  from ok have len: "length (statusHistory s) = historyIdCounter s"
    using length_map [of entry_id "statusHistory s"] by (simp add: ids_ok_def)
  have "entry_id (statusHistory s ! k) = map entry_id (statusHistory s) ! k"
    using k by simp
  also have "\<dots> = [0..<historyIdCounter s] ! k" using ok by (simp add: ids_ok_def)
  also have "\<dots> = k" using k len by simp
  finally show ?thesis .
qed

lemma ids_length: "ids_ok s \<Longrightarrow> historyIdCounter s = length (statusHistory s)"
  using length_map [of entry_id "statusHistory s"] by (simp add: ids_ok_def)

subsection \<open>The timer\<close>

lemma pollLambda_frame:
  "pollLambda parse c res now s = Inr s' \<Longrightarrow>
     pollIntervalRef s' = pollIntervalRef s \<and> intervals s' = intervals s
     \<and> last_handle s' = last_handle s \<and> inflight s' = inflight s
     \<and> isPolling s' = isPolling s \<and> apiEndpoint s' = apiEndpoint s"
  by (auto simp: pollLambda_def pollLambda_try_def decide_def addToHistory_def Let_def
      split: option.splits if_splits sum.splits)

lemma settle_timer:
  "pollIntervalRef (settle parse i res now s) = pollIntervalRef s
   \<and> intervals (settle parse i res now s) = intervals s"
proof (cases "i < length (inflight s)")
  case False
  then show ?thesis by (simp add: settle_def)
next
  case True
  define s1 where "s1 = s\<lparr> inflight := take i (inflight s) @ drop (Suc i) (inflight s) \<rparr>"
  obtain s' where s': "pollLambda parse (snd (inflight s ! i)) res now s1 = Inr s'"
    using pollLambda_total by blast
  have "settle parse i res now s = s'"
    using True s' by (simp add: settle_def Let_def s1_def)
  with pollLambda_frame [OF s'] show ?thesis by (simp add: s1_def)
qed

lemma tick_timer:
  "pollIntervalRef (tick h s) = pollIntervalRef s \<and> intervals (tick h s) = intervals s"
  by (simp add: tick_def pollLambda_call_def split: list.splits)

lemma startPolling_noop: "handle_truthy (pollIntervalRef s) \<Longrightarrow> startPolling c s = s"
  by (simp add: startPolling_def)

lemma startPolling_truthy: "handle_truthy (pollIntervalRef (startPolling c s))"
  by (simp add: startPolling_def pollLambda_call_def setInterval_def Let_def handle_truthy_def)

lemma step_keeps_handle:
  "ev \<noteq> Stop \<Longrightarrow> handle_truthy (pollIntervalRef s) \<Longrightarrow>
     pollIntervalRef (step parse ev s) = pollIntervalRef s"
  by (cases ev)
    (simp_all add: startPolling_noop handleChatMessage_def clearHistory_def settle_timer
      tick_timer)

lemma run_keeps_handle:
  "Stop \<notin> set evs \<Longrightarrow> handle_truthy (pollIntervalRef s) \<Longrightarrow>
     handle_truthy (pollIntervalRef (run parse evs s))"
proof (induction evs arbitrary: s)
  case Nil
  then show ?case by (simp add: run_def)
next
  case (Cons ev evs)
  from Cons.prems have ne: "ev \<noteq> Stop" and rest: "Stop \<notin> set evs" by auto
  have "handle_truthy (pollIntervalRef (step parse ev s))"
    using step_keeps_handle [OF ne Cons.prems(2)] Cons.prems(2) by simp
  from Cons.IH [OF rest this] show ?case by (simp add: run_def)
qed

lemma timer_ok_mount: "timer_ok (mount h0)"
  by (simp add: timer_ok_def mount_def)

lemma timer_ok_startPolling: "timer_ok s \<Longrightarrow> timer_ok (startPolling c s)"
  by (auto simp: timer_ok_def startPolling_def pollLambda_call_def setInterval_def Let_def
      handle_truthy_def split: option.splits)

lemma timer_ok_stopPolling: "timer_ok s \<Longrightarrow> timer_ok (stopPolling s)"
  by (auto simp: timer_ok_def stopPolling_def clearInterval_def Let_def split: option.splits)

lemma timer_ok_eq:
  "pollIntervalRef s' = pollIntervalRef s \<and> intervals s' = intervals s \<Longrightarrow>
     timer_ok s' = timer_ok s"
  by (simp add: timer_ok_def split: option.splits)

lemma timer_ok_step: "timer_ok s \<Longrightarrow> timer_ok (step parse ev s)"
proof (cases ev)
  case (Settle i res now)
  assume "timer_ok s"
  with Settle timer_ok_eq [OF settle_timer, of parse i res now s] show ?thesis by simp
next
  case (Tick h)
  assume "timer_ok s"
  with Tick timer_ok_eq [OF tick_timer, of h s] show ?thesis by simp
qed (simp_all add: timer_ok_startPolling timer_ok_stopPolling handleChatMessage_def,
     simp_all add: timer_ok_def clearHistory_def split: option.splits)

lemma timer_ok_run: "timer_ok s \<Longrightarrow> timer_ok (run parse evs s)"
  by (induction evs arbitrary: s) (simp_all add: run_def timer_ok_step)

lemma timer_ok_length: "timer_ok s \<Longrightarrow> length (intervals s) \<le> 1"
proof -
  assume "timer_ok s"
  then have "length (map (\<lambda>t. (fst t, fst (snd t))) (intervals s)) \<le> 1"
    by (auto simp: timer_ok_def split: option.splits)
  then show ?thesis by simp
qed

subsection \<open>What a cycle reads\<close>

lemma tracked_pollLambda:
  "tracked s = tracked t \<Longrightarrow> c_statusMessage c = c_statusMessage c' \<Longrightarrow>
     map_sum id tracked (pollLambda parse c res now s)
       = map_sum id tracked (pollLambda parse c' res now t)"
  by (auto simp: tracked_def pollLambda_def pollLambda_try_def decide_def addToHistory_def
      Let_def split: option.splits sum.splits)

lemma tracked_start_after_clear:
  "\<not> handle_truthy (pollIntervalRef s) \<Longrightarrow> \<not> handle_truthy (pollIntervalRef t) \<Longrightarrow>
   statusMessage s = statusMessage t \<Longrightarrow> statusHistory s = statusHistory t \<Longrightarrow>
   historyIdCounter s = historyIdCounter t \<Longrightarrow>
   tracked (startPolling c s) = tracked (startPolling c' t)"
  by (simp add: tracked_def startPolling_def pollLambda_call_def setInterval_def Let_def)

lemma stop_not_truthy: "\<not> handle_truthy (pollIntervalRef (clearHistory (stopPolling s)))"
  by (simp add: clearHistory_def stopPolling_def clearInterval_def handle_truthy_def Let_def
      split: option.splits)

text \<open>
  After \<^verbatim>\<open>stopPolling\<close> and then \<^verbatim>\<open>clearHistory\<close> the history is empty, the displayed
  text is empty, the id counter is 0 and the tracker is empty. The first cycle after a
  following \<^verbatim>\<open>startPolling\<close> has the result the first cycle of a fresh mount has when
  the two closures hold the same displayed text, as the closure of the render after the
  clear does; a closure of an earlier render need not.
\<close>

lemma stop_clear_state:
  "statusHistory (clearHistory (stopPolling s)) = []
   \<and> statusMessage (clearHistory (stopPolling s)) = JStr []
   \<and> historyIdCounter (clearHistory (stopPolling s)) = 0
   \<and> previousStatusRef (clearHistory (stopPolling s)) = JStr []
   \<and> \<not> isPolling (clearHistory (stopPolling s))
   \<and> previousStatusRef (startPolling c (clearHistory (stopPolling s))) = JStr []
   \<and> (c_statusMessage c = c_statusMessage c' \<longrightarrow>
        map_sum id tracked
          (pollLambda parse c res now (startPolling c (clearHistory (stopPolling s))))
        = map_sum id tracked (pollLambda parse c' res now (startPolling c' (mount h0))))
   \<and> c_statusMessage (render (clearHistory (stopPolling s)))
        = c_statusMessage (render (mount h0))"
proof (intro conjI impI)
  assume eq: "c_statusMessage c = c_statusMessage c'"
  have "tracked (startPolling c (clearHistory (stopPolling s)))
          = tracked (startPolling c' (mount h0))"
    by (rule tracked_start_after_clear [OF stop_not_truthy])
       (simp_all add: mount_def handle_truthy_def clearHistory_def)
  from tracked_pollLambda [OF this eq]
  show "map_sum id tracked
          (pollLambda parse c res now (startPolling c (clearHistory (stopPolling s))))
        = map_sum id tracked (pollLambda parse c' res now (startPolling c' (mount h0)))" .
next
  show "previousStatusRef (startPolling c (clearHistory (stopPolling s))) = JStr []"
    using stop_not_truthy [of s]
    by (simp add: startPolling_def pollLambda_call_def setInterval_def Let_def)
qed (simp_all add: clearHistory_def stopPolling_def clearInterval_def Let_def render_def
      mount_def split: option.splits)


subsection \<open>Property reads and the envelope test\<close>

lemma get_prop_field: "\<not> nullish v \<Longrightarrow> get_prop v k = Inr (field v k)"
  by (cases v) (simp_all add: nullish_def field_def)

lemma get_prop_nullish: "nullish v \<Longrightarrow> get_prop v k = Inl TypeError"
  by (auto simp: nullish_def)

lemma field_nullish: "nullish v \<Longrightarrow> field v k = JUndefined"
  by (auto simp: nullish_def field_def)

lemma field_absent: "\<not> has_field v k \<Longrightarrow> field v k = JUndefined"
  by (cases v) (simp_all add: has_field_def field_def)

lemma is_envelope_field:
  "\<not> nullish v \<Longrightarrow>
     is_envelope v = Inr (js_truthy (field v ''statusCode'') \<and> js_truthy (field v ''body''))"
  by (simp add: is_envelope_def get_prop_field)

lemma unwrap_field:
  "\<not> nullish parsed \<Longrightarrow>
     unwrap parse parsed =
       (if js_truthy (field parsed ''statusCode'') \<and> js_truthy (field parsed ''body'')
        then JSON_parse parse (field parsed ''body'') else Inr parsed)"
  by (simp add: unwrap_def is_envelope_field get_prop_field)

lemma pollLambda_status:
  "parse (JStr body) = Some parsed \<Longrightarrow> unwrap parse parsed = Inr data \<Longrightarrow>
   \<not> nullish data \<Longrightarrow>
   pollLambda parse c (ok_text body) now s =
     Inr (if js_truthy (field data ''status'') then decide c (field data ''status'') now s
          else s)"
  by (simp add: pollLambda_def pollLambda_try_def ok_text_def JSON_parse_def get_prop_field)

text \<open>
  A repeat of the tracked status, seen by a closure whose \<^verbatim>\<open>statusMessage\<close> is not the
  processing text, appends a processing entry; seen by a closure of a render that already
  shows the processing text, it changes nothing.
\<close>

lemma repeat_appends:
  "strict_eq raw (previousStatusRef s) \<Longrightarrow> \<not> strict_eq raw (JStr ''initial status'') \<Longrightarrow>
   \<not> strict_eq (c_statusMessage c) processingStatus \<Longrightarrow>
   statusHistory (decide c raw now s) = statusHistory s @
     [\<lparr> entry_id = historyIdCounter s, status = processingStatus, timestamp = now \<rparr>]"
  by (simp add: decide_def addToHistory_def)

lemma repeat_seen_by_latest_render:
  "strict_eq raw (previousStatusRef s) \<Longrightarrow> \<not> strict_eq raw (JStr ''initial status'') \<Longrightarrow>
   statusMessage s = processingStatus \<Longrightarrow>
   decide (render s) raw now s = s"
  by (simp add: decide_def render_def processingStatus_def)

text \<open>The definitions that evaluate a run on concrete events.\<close>

lemmas panel_eval = run_def startPolling_def pollLambda_call_def setInterval_def
  handle_truthy_def settle_def tick_def pollLambda_def pollLambda_try_def unwrap_def
  is_envelope_def JSON_parse_def decide_def addToHistory_def processingStatus_def
  sample_parse_def running_text_def initial_text_def done_text_def wrapped_text_def
  hello_text_def ok_text_def render_def mount_def shown_def processing_entries_def
  STATUS_def Let_def

section \<open>The Poller: the claims\<close>

text \<open>
  Claim C1: a run of repeats of one non-sentinel raw status is to add exactly one
  processing entry to the history. The guard of line 73 reads the \<^verbatim>\<open>statusMessage\<close> of
  the closure that \<^verbatim>\<open>startPolling\<close> called and handed to \<^verbatim>\<open>setInterval\<close>, which stays
  the text that was displayed when polling started. From a fresh mount, four fetches that
  all give the status \<^verbatim>\<open>running\<close> leave the history \<^verbatim>\<open>running\<close>, \<^verbatim>\<open>processing...\<close>,
  \<^verbatim>\<open>processing...\<close>, \<^verbatim>\<open>processing...\<close>: one processing entry for every repeat.
\<close>

theorem repeats_append_every_tick:
  "shown (run sample_parse
      [Start (render (mount 0)),
       Settle 0 (ok_text running_text) 1,
       Tick 1, Settle 0 (ok_text running_text) 2,
       Tick 1, Settle 0 (ok_text running_text) 3,
       Tick 1, Settle 0 (ok_text running_text) 4] (mount 0))
     = [JStr ''running'', processingStatus, processingStatus, processingStatus]
   \<and> processing_entries (run sample_parse
      [Start (render (mount 0)),
       Settle 0 (ok_text running_text) 1,
       Tick 1, Settle 0 (ok_text running_text) 2,
       Tick 1, Settle 0 (ok_text running_text) 3,
       Tick 1, Settle 0 (ok_text running_text) 4] (mount 0)) = 3"
  by (simp add: panel_eval)

text \<open>
  Claim C2, as amended: on a successful fetch the body text is parsed as JSON. When the
  parsed value (not \<^verbatim>\<open>null\<close>) has a truthy \<^verbatim>\<open>statusCode\<close> and a truthy \<^verbatim>\<open>body\<close>, the
  payload is the parsed \<^verbatim>\<open>body\<close>; otherwise, also when a field is there and falsy (a
  \<^verbatim>\<open>statusCode\<close> of 0, an empty \<^verbatim>\<open>body\<close>), the payload is the parsed value itself. When
  the payload (not \<^verbatim>\<open>null\<close>) has no \<^verbatim>\<open>status\<close> field, the cycle changes nothing: no
  entry, no displayed text, no connection label.
\<close>

theorem unwrap_truthy_envelope:
  "parse (JStr body) = Some parsed \<Longrightarrow> \<not> nullish parsed \<Longrightarrow>
     unwrap parse parsed =
       (if js_truthy (field parsed ''statusCode'') \<and> js_truthy (field parsed ''body'')
        then JSON_parse parse (field parsed ''body'') else Inr parsed)
     \<and> (\<forall>data. unwrap parse parsed = Inr data \<and> \<not> nullish data
            \<and> \<not> has_field data ''status''
          \<longrightarrow> pollLambda parse c (ok_text body) now s = Inr s)"
  using pollLambda_status [of parse body parsed _ c now s] field_absent [of _ "''status''"]
  by (simp add: unwrap_field)

theorem unwrap_truthy_envelope_witness:
  "sample_parse (JStr wrapped_text)
     = Some (JObj [(''statusCode'', JNum 200), (''body'', JStr ''{}'')])
   \<and> \<not> nullish (JObj [(''statusCode'', JNum 200), (''body'', JStr ''{}'')])
   \<and> unwrap sample_parse (JObj [(''statusCode'', JNum 200), (''body'', JStr ''{}'')])
       = Inr (JObj [])
   \<and> pollLambda sample_parse (render (mount 0)) (ok_text wrapped_text) 7 (mount 0)
       = Inr (mount 0)"
proof -
  have p: "sample_parse (JStr wrapped_text)
             = Some (JObj [(''statusCode'', JNum 200), (''body'', JStr ''{}'')])"
    by (simp add: sample_parse_def running_text_def initial_text_def done_text_def
        wrapped_text_def hello_text_def)
  have n: "\<not> nullish (JObj [(''statusCode'', JNum 200), (''body'', JStr ''{}'')])"
    by (simp add: nullish_def)
  have b: "sample_parse (JStr ''{}'') = Some (JObj [])"
    by (simp add: sample_parse_def)
  from unwrap_truthy_envelope [of sample_parse wrapped_text
      "JObj [(''statusCode'', JNum 200), (''body'', JStr ''{}'')]" "render (mount 0)" 7
      "mount 0", OF p n] p n b
  show ?thesis by (simp add: field_def has_field_def JSON_parse_def nullish_def)
qed

text \<open>
  The claim as the specification words it fails on the envelope of an empty response,
  \<^verbatim>\<open>{"statusCode":204,"body":""}\<close>: both fields are there, and the source takes the
  envelope itself as the payload where the wording has it parse the empty body.
\<close>

theorem unwrap_presence_counterexample:
  "has_field no_content ''statusCode'' \<and> has_field no_content ''body''
   \<and> unwrap sample_parse no_content = Inr no_content
   \<and> unwrap_spec sample_parse no_content = Inl SyntaxError
   \<and> unwrap sample_parse no_content \<noteq> unwrap_spec sample_parse no_content"
  by (simp add: no_content_def has_field_def unwrap_def unwrap_spec_def is_envelope_def
      field_def JSON_parse_def sample_parse_def running_text_def initial_text_def
      done_text_def wrapped_text_def hello_text_def)

text \<open>
  Claim C3: a cycle that ends in a transport failure (the fetch rejects, the response is
  not 2xx, reading the body rejects) or in a JSON parse failure (of the body text or of
  the body of an envelope) settles without an exception, and its only effect is to set
  the connection label to \<^verbatim>\<open>Error\<close>: no entry is appended, and the displayed text and
  the tracker are unchanged.
\<close>

theorem failed_cycle:
  "transport_failure res \<or> parse_failure parse res \<Longrightarrow>
     pollLambda parse c res now s = Inr (s\<lparr> connectionStatus := ''Error'' \<rparr>)"
proof (cases res)
  case None
  then show ?thesis by (simp add: pollLambda_def pollLambda_try_def)
next
  case (Some r)
  assume f: "transport_failure res \<or> parse_failure parse res"
  show ?thesis
  proof (cases "ok r")
    case False
    with Some show ?thesis by (simp add: pollLambda_def pollLambda_try_def)
  next
    case True
    show ?thesis
    proof (cases "body_text r")
      case None
      with Some True show ?thesis by (simp add: pollLambda_def pollLambda_try_def)
    next
      case (Some body)
      note body = this
      show ?thesis
      proof (cases "parse (JStr body)")
        case None
        with \<open>res = Some r\<close> True body show ?thesis
          by (simp add: pollLambda_def pollLambda_try_def JSON_parse_def)
      next
        case (Some parsed)
        with f \<open>res = Some r\<close> True body have env: "envelope_unparsable parse parsed"
          by (simp add: transport_failure_def parse_failure_def)
        then have "\<not> nullish parsed"
          using field_nullish [of parsed "''body''"] by (auto simp: envelope_unparsable_def)
        with env have "unwrap parse parsed = Inl SyntaxError"
          by (simp add: unwrap_field envelope_unparsable_def JSON_parse_def)
        with Some \<open>res = Some r\<close> True body show ?thesis
          by (simp add: pollLambda_def pollLambda_try_def JSON_parse_def)
      qed
    qed
  qed
qed

theorem failed_cycle_witness:
  "(transport_failure (ok_text ''<html>'') \<or> parse_failure sample_parse (ok_text ''<html>''))
   \<and> pollLambda sample_parse (render (mount 0)) (ok_text ''<html>'') 7 (mount 0)
       = Inr ((mount 0)\<lparr> connectionStatus := ''Error'' \<rparr>)"
proof -
  have h: "parse_failure sample_parse (ok_text ''<html>'')"
    by (simp add: parse_failure_def ok_text_def sample_parse_def running_text_def
        initial_text_def done_text_def wrapped_text_def hello_text_def)
  then have "transport_failure (ok_text ''<html>'') \<or> parse_failure sample_parse (ok_text ''<html>'')"
    by simp
  from failed_cycle [OF this, of "render (mount 0)" 7 "mount 0"] h show ?thesis by simp
qed

text \<open>
  Claim C4: the history is append-only under fetch cycles. Every cycle settles and leaves
  the history as it was or with one more entry at its end; along any events other than
  a clear, the earlier history stays a prefix of the later one; and in every state
  reachable from the mount, the ids of the history are strictly increasing, hence
  unique.
\<close>

theorem history_append_only:
  "(\<exists>s' es. pollLambda parse c res now s = Inr s'
        \<and> statusHistory s' = statusHistory s @ es \<and> length es \<le> 1)
   \<and> (Clear \<notin> set evs \<longrightarrow>
        (\<exists>es. statusHistory (run parse evs s) = statusHistory s @ es))
   \<and> sorted_wrt (<) (map entry_id (statusHistory (run parse evs (mount h0))))
   \<and> distinct (map entry_id (statusHistory (run parse evs (mount h0))))"
proof (intro conjI impI)
  obtain s' where s': "pollLambda parse c res now s = Inr s'"
    using pollLambda_total by blast
  with pollLambda_history [OF s']
  show "\<exists>s' es. pollLambda parse c res now s = Inr s'
        \<and> statusHistory s' = statusHistory s @ es \<and> length es \<le> 1"
    by blast
next
  assume "Clear \<notin> set evs"
  then show "\<exists>es. statusHistory (run parse evs s) = statusHistory s @ es"
    by (rule run_history)
next
  have ok: "ids_ok (run parse evs (mount h0))"
    by (rule ids_ok_run [OF ids_ok_mount])
  then show "sorted_wrt (<) (map entry_id (statusHistory (run parse evs (mount h0))))"
    by (rule ids_sorted)
  from ok show "distinct (map entry_id (statusHistory (run parse evs (mount h0))))"
    by (simp add: ids_ok_def)
qed

theorem history_append_only_witness:
  "Clear \<notin> set [Start (render (mount 0)), Settle 0 (ok_text running_text) 1]
   \<and> (\<exists>s' es. pollLambda sample_parse (render (mount 0)) (ok_text running_text) 1 (mount 0)
          = Inr s' \<and> statusHistory s' = statusHistory (mount 0) @ es \<and> length es \<le> 1)
   \<and> (\<exists>es. statusHistory (run sample_parse
          [Start (render (mount 0)), Settle 0 (ok_text running_text) 1] (mount 0))
        = statusHistory (mount 0) @ es)
   \<and> sorted_wrt (<) (map entry_id (statusHistory (run sample_parse
          [Start (render (mount 0)), Settle 0 (ok_text running_text) 1] (mount 0))))"
  using history_append_only [of sample_parse "render (mount 0)" "ok_text running_text" 1
      "mount 0" "[Start (render (mount 0)), Settle 0 (ok_text running_text) 1]" 0]
  by simp

text \<open>
  Claim C5: for the raw statuses \<^verbatim>\<open>initial status\<close>, \<^verbatim>\<open>initial status\<close>, \<^verbatim>\<open>done\<close> the
  second fetch is to append nothing. The sentinel is exempt from the processing rule, and
  the second guard, at line 78, reads the \<^verbatim>\<open>statusMessage\<close> of the closure that was
  handed to \<^verbatim>\<open>setInterval\<close>, the empty text of the mount: from a fresh mount the second
  fetch appends a second \<^verbatim>\<open>initial status\<close> entry, and the history after the three
  fetches has three entries.
\<close>

theorem sentinel_appended_again:
  "shown (run sample_parse
      [Start (render (mount 0)),
       Settle 0 (ok_text initial_text) 1,
       Tick 1, Settle 0 (ok_text initial_text) 2] (mount 0))
     = [JStr ''initial status'', JStr ''initial status'']
   \<and> shown (run sample_parse
      [Start (render (mount 0)),
       Settle 0 (ok_text initial_text) 1,
       Tick 1, Settle 0 (ok_text initial_text) 2,
       Tick 1, Settle 0 (ok_text done_text) 3] (mount 0))
     = [JStr ''initial status'', JStr ''initial status'', JStr ''done'']"
  by (simp add: panel_eval)

text \<open>
  Claim C6: \<^verbatim>\<open>startPolling\<close> after \<^verbatim>\<open>startPolling\<close>, with any events but a stop in
  between, changes nothing; every state reachable from the mount has at most one timer;
  and a \<^verbatim>\<open>startPolling\<close> that finds no handle resets the tracker to the empty text,
  marks the panel as polling, issues one GET request to the status path at once, and
  sets one timer of period 2000 ms whose handle it keeps.
\<close>

theorem start_idempotent:
  "(Stop \<notin> set evs \<longrightarrow>
      startPolling c2 (run parse evs (startPolling c1 s)) = run parse evs (startPolling c1 s))
   \<and> length (intervals (run parse evs' (mount h0))) \<le> 1
   \<and> (\<not> handle_truthy (pollIntervalRef s) \<longrightarrow>
        previousStatusRef (startPolling c s) = JStr []
        \<and> isPolling (startPolling c s)
        \<and> inflight (startPolling c s) = inflight s @ [(c_apiEndpoint c @ STATUS, c)]
        \<and> intervals (startPolling c s) = intervals s @ [(Suc (last_handle s), 2000, c)]
        \<and> pollIntervalRef (startPolling c s) = Some (Suc (last_handle s)))"
proof (intro conjI impI)
  assume "Stop \<notin> set evs"
  from run_keeps_handle [OF this startPolling_truthy]
  show "startPolling c2 (run parse evs (startPolling c1 s)) = run parse evs (startPolling c1 s)"
    by (rule startPolling_noop)
next
  show "length (intervals (run parse evs' (mount h0))) \<le> 1"
    by (rule timer_ok_length [OF timer_ok_run [OF timer_ok_mount]])
qed (simp_all add: startPolling_def pollLambda_call_def setInterval_def Let_def)

theorem start_idempotent_witness:
  "Stop \<notin> set [Settle 0 (ok_text running_text) 1, Tick 1]
   \<and> startPolling (render (mount 0))
        (run sample_parse [Settle 0 (ok_text running_text) 1, Tick 1]
          (startPolling (render (mount 0)) (mount 0)))
       = run sample_parse [Settle 0 (ok_text running_text) 1, Tick 1]
          (startPolling (render (mount 0)) (mount 0))
   \<and> \<not> handle_truthy (pollIntervalRef (mount 0))
   \<and> intervals (startPolling (render (mount 0)) (mount 0))
       = [(1, 2000, render (mount 0))]"
proof -
  have h: "\<not> handle_truthy (pollIntervalRef (mount 0))"
    by (simp add: handle_truthy_def mount_def)
  from start_idempotent [of "[Settle 0 (ok_text running_text) 1, Tick 1]" "render (mount 0)"
      sample_parse "render (mount 0)" "mount 0" "[]" 0 "render (mount 0)"] h
  show ?thesis by (simp add: mount_def)
qed


text \<open>
  Claim C9: \<^verbatim>\<open>addToHistory\<close> and \<^verbatim>\<open>clearHistory\<close> keep the ids of the history equal to
  \<open>0, 1, \<dots>\<close> up to the counter, and in every state reachable from the mount the counter
  is the length of the history and the entry at index \<open>k\<close> has id \<open>k\<close>.
\<close>

theorem ids_are_indices:
  "(ids_ok s \<longrightarrow> ids_ok (addToHistory now st s) \<and> ids_ok (clearHistory s))
   \<and> historyIdCounter (run parse evs (mount h0))
       = length (statusHistory (run parse evs (mount h0)))
   \<and> (\<forall>k < length (statusHistory (run parse evs (mount h0))).
         entry_id (statusHistory (run parse evs (mount h0)) ! k) = k)"
proof (intro conjI impI allI)
  have ok: "ids_ok (run parse evs (mount h0))"
    by (rule ids_ok_run [OF ids_ok_mount])
  then show "historyIdCounter (run parse evs (mount h0))
       = length (statusHistory (run parse evs (mount h0)))"
    by (rule ids_length)
  fix k
  assume "k < length (statusHistory (run parse evs (mount h0)))"
  with ok show "entry_id (statusHistory (run parse evs (mount h0)) ! k) = k"
    by (rule ids_nth)
next
  assume "ids_ok s"
  then show "ids_ok (addToHistory now st s)" by (rule ids_ok_addToHistory)
next
  assume "ids_ok s"
  then show "ids_ok (clearHistory s)" by (simp add: ids_ok_def clearHistory_def)
qed

theorem ids_are_indices_witness:
  "ids_ok (mount 0)
   \<and> ids_ok (addToHistory 5 (JStr ''done'') (mount 0))
   \<and> (1::nat) < length (statusHistory (run sample_parse
        [Start (render (mount 0)), Settle 0 (ok_text running_text) 1, Stop, Clear,
         Start (render (mount 0)), Settle 0 (ok_text running_text) 2,
         Tick 2, Settle 0 (ok_text running_text) 3] (mount 0)))
   \<and> entry_id (statusHistory (run sample_parse
        [Start (render (mount 0)), Settle 0 (ok_text running_text) 1, Stop, Clear,
         Start (render (mount 0)), Settle 0 (ok_text running_text) 2,
         Tick 2, Settle 0 (ok_text running_text) 3] (mount 0)) ! 1) = 1"
proof -
  have len: "(1::nat) < length (statusHistory (run sample_parse
        [Start (render (mount 0)), Settle 0 (ok_text running_text) 1, Stop, Clear,
         Start (render (mount 0)), Settle 0 (ok_text running_text) 2,
         Tick 2, Settle 0 (ok_text running_text) 3] (mount 0)))"
    by (simp add: panel_eval stopPolling_def clearInterval_def clearHistory_def)
  have m: "ids_ok (mount 0)" by (simp add: ids_ok_def mount_def)
  from ids_are_indices [of "mount 0" 5 "JStr ''done''" sample_parse
        "[Start (render (mount 0)), Settle 0 (ok_text running_text) 1, Stop, Clear,
         Start (render (mount 0)), Settle 0 (ok_text running_text) 2,
         Tick 2, Settle 0 (ok_text running_text) 3]" 0] len m
  show ?thesis by simp
qed

section \<open>The messaging collaborator\<close>

lemma pick_field:
  "\<not> nullish p \<Longrightarrow>
     pick p fb = Inr (case first_truthy p of None \<Rightarrow> fb | Some m \<Rightarrow> m)"
  by (simp add: pick_def get_prop_field first_truthy_def)

lemma extract_top:
  "\<not> nullish data \<Longrightarrow>
   \<not> (js_truthy (field data ''statusCode'') \<and> js_truthy (field data ''body'')) \<Longrightarrow>
   first_truthy data = Some m \<Longrightarrow>
   extract_message parse stringify data = Inr (m, field data ''processing_time'')"
  by (auto simp: extract_message_def is_envelope_field pick_field get_prop_field)

lemma extract_envelope_object:
  "\<not> nullish data \<Longrightarrow>
   js_truthy (field data ''statusCode'') \<Longrightarrow> js_truthy (field data ''body'') \<Longrightarrow>
   \<forall>b. field data ''body'' \<noteq> JStr b \<Longrightarrow>
   first_truthy (field data ''body'') = Some m \<Longrightarrow>
   extract_message parse stringify data
     = Inr (m, field (field data ''body'') ''processing_time'')"
proof -
  assume d: "\<not> nullish data" and sc: "js_truthy (field data ''statusCode'')"
    and b: "js_truthy (field data ''body'')" and ns: "\<forall>b. field data ''body'' \<noteq> JStr b"
    and m: "first_truthy (field data ''body'') = Some m"
  from b have nb: "\<not> nullish (field data ''body'')" by (auto simp: nullish_def)
  show ?thesis
    using d sc b ns m nb
    by (cases "field data ''body''",
        simp_all add: extract_message_def is_envelope_field pick_field get_prop_field)
       (simp_all add: field_def)
qed

lemma extract_envelope_string:
  "\<not> nullish data \<Longrightarrow>
   js_truthy (field data ''statusCode'') \<Longrightarrow> js_truthy (field data ''body'') \<Longrightarrow>
   field data ''body'' = JStr b \<Longrightarrow> parse (JStr b) = Some p \<Longrightarrow> \<not> nullish p \<Longrightarrow>
   first_truthy p = Some m \<Longrightarrow>
   extract_message parse stringify data = Inr (m, field p ''processing_time'')"
  by (simp add: extract_message_def is_envelope_field pick_field get_prop_field JSON_parse_def)

text \<open>
  Claim C8, as amended: for a chat response whose payload is parsed and not \<^verbatim>\<open>null\<close>
  (the parsed body of an envelope whose body is a string, the body of an envelope whose
  body is not a string, the response itself otherwise), the bot message is the first
  truthy value among the payload's \<^verbatim>\<open>response\<close>, \<^verbatim>\<open>message\<close> and \<^verbatim>\<open>body\<close>, in that
  order; a field that is there with a falsy value, such as an empty text, is passed over.
\<close>

theorem first_truthy_field_wins:
  "\<not> nullish data \<Longrightarrow> chat_payload parse data = Some p \<Longrightarrow> \<not> nullish p \<Longrightarrow>
   first_truthy p = Some m \<Longrightarrow>
   extract_message parse stringify data = Inr (m, field p ''processing_time'')"
proof -
  assume d: "\<not> nullish data" and p: "chat_payload parse data = Some p"
    and np: "\<not> nullish p" and m: "first_truthy p = Some m"
  show ?thesis
  proof (cases "js_truthy (field data ''statusCode'') \<and> js_truthy (field data ''body'')")
    case False
    with p have "p = data" by (simp add: chat_payload_def)
    with d False m show ?thesis using extract_top [of data m parse stringify] by simp
  next
    case True
    show ?thesis
    proof (cases "\<exists>b. field data ''body'' = JStr b")
      case True
      then obtain b where b: "field data ''body'' = JStr b" by blast
      with p \<open>js_truthy (field data ''statusCode'') \<and> js_truthy (field data ''body'')\<close>
      have "parse (JStr b) = Some p" by (simp add: chat_payload_def)
      with d b np m \<open>js_truthy (field data ''statusCode'') \<and> js_truthy (field data ''body'')\<close>
      show ?thesis using extract_envelope_string [of data b parse p m stringify] by simp
    next
      case False
      with p True have "p = field data ''body''"
        by (cases "field data ''body''") (simp_all add: chat_payload_def)
      with d True False m show ?thesis
        using extract_envelope_object [of data m parse stringify] by simp
    qed
  qed
qed

theorem first_truthy_field_wins_witness:
  "\<not> nullish hello_envelope
   \<and> chat_payload sample_parse hello_envelope = Some (JObj [(''response'', JStr ''hello'')])
   \<and> \<not> nullish (JObj [(''response'', JStr ''hello'')])
   \<and> first_truthy (JObj [(''response'', JStr ''hello'')]) = Some (JStr ''hello'')
   \<and> extract_message sample_parse sample_stringify hello_envelope
       = Inr (JStr ''hello'', JUndefined)"
proof -
  have a: "\<not> nullish hello_envelope" by (simp add: nullish_def hello_envelope_def)
  have b: "chat_payload sample_parse hello_envelope
             = Some (JObj [(''response'', JStr ''hello'')])"
    by (simp add: chat_payload_def hello_envelope_def field_def sample_parse_def
        running_text_def initial_text_def done_text_def wrapped_text_def hello_text_def)
  have c: "\<not> nullish (JObj [(''response'', JStr ''hello'')])" by (simp add: nullish_def)
  have d: "first_truthy (JObj [(''response'', JStr ''hello'')]) = Some (JStr ''hello'')"
    by (simp add: first_truthy_def field_def)
  from first_truthy_field_wins [OF a b c d, of sample_stringify] a b c d
  show ?thesis by (simp add: field_def)
qed

text \<open>
  The claim as the specification words it fails on \<^verbatim>\<open>{"response":"","message":"hi"}\<close>:
  the first field that is present is \<^verbatim>\<open>response\<close>, the empty text, and the source takes
  \<^verbatim>\<open>hi\<close>.
\<close>

theorem first_present_counterexample:
  "chat_payload sample_parse blank_response = Some blank_response
   \<and> first_present blank_response = Some (JStr [])
   \<and> extract_message sample_parse sample_stringify blank_response
       = Inr (JStr ''hi'', JUndefined)
   \<and> first_present blank_response \<noteq> Some (JStr ''hi'')"
  by (simp add: blank_response_def chat_payload_def first_present_def has_field_def
      field_def extract_message_def is_envelope_def pick_def)

lemma trim_whitespace: "list_all js_whitespace s \<Longrightarrow> js_trim s = []"
proof -
  assume "list_all js_whitespace s"
  then have h: "dropWhile js_whitespace s = []" by (simp add: list_all_iff)
  show ?thesis unfolding js_trim_def h by simp
qed

text \<open>
  Claim C10: \<^verbatim>\<open>handleSubmit\<close> with an input that is empty or all white space, or while
  a send is processing, leaves the component as it was: no message is appended, no event
  is dispatched, no request is issued and the input value is unchanged.
\<close>

theorem blank_submit_noop:
  "list_all js_whitespace (inputValue s) \<or> isProcessing s \<Longrightarrow>
     snd (handleSubmit tm now s) = s
     \<and> messages (snd (handleSubmit tm now s)) = messages s
     \<and> dispatched (snd (handleSubmit tm now s)) = dispatched s
     \<and> posted (snd (handleSubmit tm now s)) = posted s
     \<and> inputValue (snd (handleSubmit tm now s)) = inputValue s"
  using trim_whitespace [of "inputValue s"] by (auto simp: handleSubmit_def)

theorem blank_submit_noop_witness:
  "(list_all js_whitespace ''   '' \<or> False)
   \<and> snd (handleSubmit ''10:00'' 7
        \<lparr> messages = [], inputValue = ''   '', isProcessing = False,
          chat_connectionStatus = ''Connected'', messageIdCounter = 0, dispatched = [],
          posted = [] \<rparr>)
       = \<lparr> messages = [], inputValue = ''   '', isProcessing = False,
           chat_connectionStatus = ''Connected'', messageIdCounter = 0, dispatched = [],
           posted = [] \<rparr>"
proof -
  have h: "list_all js_whitespace ''   ''" by (simp add: js_whitespace_def)
  from blank_submit_noop [of "\<lparr> messages = [], inputValue = ''   '', isProcessing = False,
          chat_connectionStatus = ''Connected'', messageIdCounter = 0, dispatched = [],
          posted = [] \<rparr>" "''10:00''" 7] h
  show ?thesis by simp
qed

end
